theory Spec2Isabelle
  imports Complex_Main
begin

section \<open>The influxdb importer: data model\<close>

text \<open>
  The model follows \<^verbatim>\<open>scripts/influxdb_importer.py\<close>. A data point is the dict that
  \<^verbatim>\<open>_enqueue_measurement\<close> builds, with its four keys \<^verbatim>\<open>measurement\<close>, \<^verbatim>\<open>tags\<close>,
  \<^verbatim>\<open>time\<close> and \<^verbatim>\<open>fields\<close>. The measurement name and the time are a string and an
  integer. The entries for \<^verbatim>\<open>tags\<close> and \<^verbatim>\<open>fields\<close> are the dict objects handed to the
  importer; their types \<open>'t\<close> and \<open>'f\<close> are parameters.
\<close>

record ('t, 'f) point =
  p_measurement :: string
  p_tags :: 't
  p_time :: int
  p_fields :: 'f

text \<open>
  The exceptions the code names: \<^verbatim>\<open>InfluxDBClientError\<close> of the client library, the
  module's own \<^verbatim>\<open>InfluxdbImportError\<close>, and every other exception class a call can
  raise (none of them a subclass of \<^verbatim>\<open>InfluxDBClientError\<close>). Each carries its
  \<^verbatim>\<open>str()\<close>.
\<close>

datatype py_exception =
    InfluxDBClientError string
  | InfluxdbImportError string
  | Other_exception string

datatype log_entry = Info string | Warn string

definition IMPORT_QUEUE_SIZE :: int where
  "IMPORT_QUEUE_SIZE = 10000"

definition SAMPLE_INTERVAL :: real where
  "SAMPLE_INTERVAL = 1"

definition IMPORT_RETRY :: nat where
  "IMPORT_RETRY = 3"

section \<open>The retrying batch write\<close>

text \<open>Python's \<^verbatim>\<open>str\<close> of a non-negative integer, as \<^verbatim>\<open>format\<close> renders it.\<close>

fun str_nat :: "nat \<Rightarrow> string" where
  "str_nat n =
     (if n < 10 then [''0123456789'' ! n]
      else str_nat (n div 10) @ [''0123456789'' ! (n mod 10)])"

declare str_nat.simps [simp del]

text \<open>\<^verbatim>\<open>'{}'.format(x)\<close> of a value that is \<^verbatim>\<open>None\<close> or a string.\<close>

definition format_opt :: "string option \<Rightarrow> string" where
  "format_opt x = (case x of None \<Rightarrow> ''None'' | Some s \<Rightarrow> s)"

text \<open>
  The message built at lines 111 to 113; \<open>data_str\<close> is the rendering of the batch by
  \<^verbatim>\<open>format\<close>.
\<close>

definition error_message :: "string option \<Rightarrow> string \<Rightarrow> string" where
  "error_message ex_message data_str =
     ''Error when importing data to influxdb! Unable to import after '' @ str_nat IMPORT_RETRY
       @ '' retries. '' @ [CHR 0x0A] @ ''Exception=['' @ format_opt ex_message @ ''] ''
       @ [CHR 0x0A] @ ''Data=['' @ data_str @ '']. '' @ [CHR 0x0A]
       @ ''Either the server is down or data is corrupted.''"

text \<open>How the \<^verbatim>\<open>while\<close> loop of \<^verbatim>\<open>_import_data_list\<close> is left.\<close>

datatype loop_exit =
    Return_success
  | Propagate py_exception
  | Retries_exhausted "string option"

text \<open>
  The loop at lines 104 to 110. \<open>write_points data_list k\<close> is what the call
  \<^verbatim>\<open>self._influxdb_client.write_points(data_list, time_precision='ms')\<close> does when
  \<open>k\<close> calls were made before it: it raises (\<open>Inl\<close>) or returns a value that is truthy
  or falsy (\<open>Inr\<close>). The loop state is the number of calls made, \<^verbatim>\<open>import_count\<close>
  and \<^verbatim>\<open>ex_message\<close>. The result is the exit and the number of calls made; a loop
  that runs forever has the value \<open>None\<close>.
\<close>

partial_function (option) retry_loop ::
  "(('t, 'f) point list \<Rightarrow> nat \<Rightarrow> py_exception + bool) \<Rightarrow> ('t, 'f) point list \<Rightarrow> nat \<Rightarrow> nat \<Rightarrow>
     string option \<Rightarrow> (loop_exit \<times> nat) option"
where
  "retry_loop write_points data_list calls import_count ex_message =
     (if import_count < IMPORT_RETRY then
        (case write_points data_list calls of
           Inr ok \<Rightarrow>
             if ok then Some (Return_success, Suc calls)
             else retry_loop write_points data_list (Suc calls) import_count ex_message
         | Inl (InfluxDBClientError ex) \<Rightarrow>
             retry_loop write_points data_list (Suc calls) (import_count + 1) (Some ex)
         | Inl other \<Rightarrow> Some (Propagate other, Suc calls))
      else Some (Retries_exhausted ex_message, calls))"

record import_result =
  outcome :: "py_exception + unit"
  attempts :: nat
  logged :: "log_entry list"

text \<open>
  \<^verbatim>\<open>_import_data_list\<close> (an Isabelle name cannot start with an underscore). \<open>fmt\<close> is
  Python's rendering of the batch by \<^verbatim>\<open>'{}'.format(data_list)\<close>. The result holds what
  the call does (returns \<^verbatim>\<open>None\<close>, or raises), how many times it called
  \<^verbatim>\<open>write_points\<close>, and what it logged.
\<close>

definition import_data_list ::
  "(('t, 'f) point list \<Rightarrow> string) \<Rightarrow> (('t, 'f) point list \<Rightarrow> nat \<Rightarrow> py_exception + bool) \<Rightarrow> bool \<Rightarrow>
     ('t, 'f) point list \<Rightarrow> import_result option"
where
  "import_data_list fmt write_points ignore_errors data_list =
     (case retry_loop write_points data_list 0 0 None of
        None \<Rightarrow> None
      | Some (exit, calls) \<Rightarrow>
          Some (case exit of
              Return_success \<Rightarrow>
                \<lparr>outcome = Inr (), attempts = calls,
                 logged = [Info (''Importing Data: '' @ fmt data_list)]\<rparr>
            | Propagate e \<Rightarrow>
                \<lparr>outcome = Inl e, attempts = calls,
                 logged = [Info (''Importing Data: '' @ fmt data_list)]\<rparr>
            | Retries_exhausted ex_message \<Rightarrow>
                if ignore_errors then
                  \<lparr>outcome = Inr (), attempts = calls,
                   logged = [Info (''Importing Data: '' @ fmt data_list),
                             Warn (error_message ex_message (fmt data_list))]\<rparr>
                else
                  \<lparr>outcome = Inl (InfluxdbImportError (error_message ex_message (fmt data_list))),
                   attempts = calls,
                   logged = [Info (''Importing Data: '' @ fmt data_list)]\<rparr>))"

text \<open>
  Whether a write attempt raised \<^verbatim>\<open>InfluxDBClientError\<close>, the text of that error, and
  whether the attempt raised an exception of another class.
\<close>

fun is_client_error :: "py_exception + bool \<Rightarrow> bool" where
  "is_client_error (Inl (InfluxDBClientError ex)) = True"
| "is_client_error _ = False"


fun is_foreign_raise :: "py_exception + bool \<Rightarrow> bool" where
  "is_foreign_raise (Inl (InfluxDBClientError ex)) = False"
| "is_foreign_raise (Inl _) = True"
| "is_foreign_raise (Inr _) = False"

text \<open>The number of attempts among calls \<open>lo\<close> to \<open>hi - 1\<close> that raise \<^verbatim>\<open>InfluxDBClientError\<close>.\<close>

definition client_errors ::
  "(('t, 'f) point list \<Rightarrow> nat \<Rightarrow> py_exception + bool) \<Rightarrow> ('t, 'f) point list \<Rightarrow> nat \<Rightarrow> nat \<Rightarrow> nat"
where
  "client_errors write_points data_list lo hi =
     length (filter (\<lambda>k. is_client_error (write_points data_list k)) [lo..<hi])"

text \<open>What a finished loop says about the attempts it made.\<close>

fun exit_sound ::
  "(('t, 'f) point list \<Rightarrow> nat \<Rightarrow> py_exception + bool) \<Rightarrow> ('t, 'f) point list \<Rightarrow> nat \<Rightarrow> nat \<Rightarrow>
     loop_exit \<times> nat \<Rightarrow> bool"
where
  "exit_sound wp d calls c (Return_success, n) = (calls < n \<and> wp d (n - 1) = Inr True)"
| "exit_sound wp d calls c (Propagate e, n) =
     (calls < n \<and> wp d (n - 1) = Inl e \<and> is_foreign_raise (Inl e))"
| "exit_sound wp d calls c (Retries_exhausted m, n) =
     (calls \<le> n \<and> IMPORT_RETRY \<le> c + client_errors wp d calls n)"

section \<open>The import queue\<close>

text \<open>
  \<^verbatim>\<open>Queue.Queue\<close> of the Python 2 library, as far as the importer uses it: a FIFO list
  with a bound. \<^verbatim>\<open>put\<close> (blocking, no timeout) waits while a positive \<^verbatim>\<open>maxsize\<close> is
  reached, \<^verbatim>\<open>get\<close> waits while the queue is empty; a call that has to wait has the
  value \<open>None\<close> here. Each of \<^verbatim>\<open>put\<close>, \<^verbatim>\<open>get\<close> and \<^verbatim>\<open>empty\<close> runs under the queue's
  mutex, so each is one step.
\<close>

record 'a py_queue =
  maxsize :: int
  items :: "'a list"

definition Queue :: "int \<Rightarrow> 'a py_queue" where
  "Queue n = \<lparr>maxsize = n, items = []\<rparr>"

definition queue_empty :: "'a py_queue \<Rightarrow> bool" where
  "queue_empty q = (items q = [])"

definition queue_put :: "'a py_queue \<Rightarrow> 'a \<Rightarrow> 'a py_queue option" where
  "queue_put q x =
     (if 0 < maxsize q \<and> int (length (items q)) = maxsize q then None
      else Some (q\<lparr>items := items q @ [x]\<rparr>))"

definition queue_get :: "'a py_queue \<Rightarrow> ('a \<times> 'a py_queue) option" where
  "queue_get q = (case items q of [] \<Rightarrow> None | x # xs \<Rightarrow> Some (x, q\<lparr>items := xs\<rparr>))"

text \<open>A run of \<^verbatim>\<open>put\<close> calls by one caller; \<open>None\<close> when one of them has to wait.\<close>

fun queue_puts :: "'a py_queue \<Rightarrow> 'a list \<Rightarrow> 'a py_queue option" where
  "queue_puts q [] = Some q"
| "queue_puts q (x # xs) = (case queue_put q x of None \<Rightarrow> None | Some q' \<Rightarrow> queue_puts q' xs)"

text \<open>
  Lines 140 to 142 of \<^verbatim>\<open>import_thread\<close>, run with no other thread in between: the loop
  that moves the queue into \<^verbatim>\<open>data_list\<close>.
\<close>

function drain :: "'a py_queue \<Rightarrow> 'a list \<Rightarrow> 'a list \<times> 'a py_queue" where
  "drain q data_list =
     (if \<not> queue_empty q then
        (case queue_get q of
           Some (x, q') \<Rightarrow> drain q' (data_list @ [x])
         | None \<Rightarrow> (data_list, q))
      else (data_list, q))"
  by pat_completeness auto
termination
  by (relation "measure (\<lambda>(q, data_list). length (items q))")
     (auto simp: queue_get_def queue_empty_def split: list.splits)

declare drain.simps [simp del]

section \<open>Enqueueing a measurement\<close>

text \<open>
  Python's floats are IEEE 754 binary64 numbers and its arithmetic rounds to the nearest
  float, ties to the even mantissa. A finite float is taken as the real number it stands
  for.
\<close>

definition round_half_even :: "real \<Rightarrow> int" where
  "round_half_even x =
     (let f = \<lfloor>x\<rfloor>; d = x - of_int f in
      if d < 1/2 then f else if 1/2 < d then f + 1 else if even f then f else f + 1)"

text \<open>The number of binary digits of a positive integer.\<close>

function bit_length :: "int \<Rightarrow> int" where
  "bit_length n = (if n \<le> 0 then 0 else 1 + bit_length (n div 2))"
  by pat_completeness auto
termination
  by (relation "measure nat") auto

declare bit_length.simps [simp del]

text \<open>The exponent \<open>e\<close> with \<open>2 ^ e \<le> \<bar>x\<bar> < 2 ^ (e + 1)\<close>, for \<open>x\<close> other than zero.\<close>

definition binade :: "real \<Rightarrow> int" where
  "binade x =
     (if 1 \<le> \<bar>x\<bar> then bit_length \<lfloor>\<bar>x\<bar>\<rfloor> - 1
      else - bit_length (\<lceil>1 / \<bar>x\<bar>\<rceil> - 1))"

definition pow2 :: "int \<Rightarrow> real" where
  "pow2 e = (if 0 \<le> e then 2 ^ nat e else 1 / 2 ^ nat (- e))"

text \<open>
  The float nearest to a real number: 53 significant bits, exponents from \<open>- 1022\<close> on
  (below that the spacing stays \<open>2 ^ - 1074\<close>); \<open>None\<close> when the result is beyond the
  largest float, which is an infinity in Python.
\<close>

definition float_round :: "real \<Rightarrow> real option" where
  "float_round x =
     (if x = 0 then Some 0
      else let ulp = pow2 (max (binade x) (- 1022) - 52);
               r = of_int (round_half_even (x / ulp)) * ulp
           in if 1024 \<le> binade r then None else Some r)"

text \<open>The product of two finite floats.\<close>

definition float_mul :: "real \<Rightarrow> real \<Rightarrow> real option" where
  "float_mul x y = float_round (x * y)"

text \<open>Python's \<^verbatim>\<open>int\<close> of a finite float: truncation towards zero.\<close>

definition py_int :: "real \<Rightarrow> int" where
  "py_int x = (if 0 \<le> x then \<lfloor>x\<rfloor> else \<lceil>x\<rceil>)"

text \<open>
  \<^verbatim>\<open>_enqueue_measurement\<close>: \<open>now\<close> is the float that \<^verbatim>\<open>time.time()\<close> returns in this call.
  Line 91 multiplies it by 1000 as a float and truncates the product; \<^verbatim>\<open>int\<close> of an
  infinite product raises \<^verbatim>\<open>OverflowError\<close>. The dict built has four entries. The
  entries for \<^verbatim>\<open>tags\<close> and \<^verbatim>\<open>fields\<close> are the objects passed in, not copies of them:
  \<open>'t\<close> and \<open>'f\<close> stand for what such an entry is, a reference to a dict where the
  identity of the dict matters. The dict of the point itself is new and reachable only
  through the queue. \<open>Inr None\<close> is a \<^verbatim>\<open>put\<close> that has to wait.
\<close>

definition enqueue_measurement ::
  "'t \<Rightarrow> real \<Rightarrow> ('t, 'f) point py_queue \<Rightarrow> string \<Rightarrow> 'f \<Rightarrow>
     py_exception + ('t, 'f) point py_queue option"
where
  "enqueue_measurement tags_dict now import_queue measurement fields_dict =
     (case float_mul now 1000 of
        None \<Rightarrow> Inl (Other_exception ''OverflowError: cannot convert float infinity to integer'')
      | Some ms \<Rightarrow>
          Inr (queue_put import_queue
                 \<lparr>p_measurement = measurement, p_tags = tags_dict, p_time = py_int ms,
                  p_fields = fields_dict\<rparr>))"

text \<open>\<^verbatim>\<open>import_data\<close> passes its arguments on.\<close>

definition import_data ::
  "'t \<Rightarrow> real \<Rightarrow> ('t, 'f) point py_queue \<Rightarrow> string \<Rightarrow> 'f \<Rightarrow>
     py_exception + ('t, 'f) point py_queue option"
where
  "import_data tags_dict now import_queue measurement fields_dict =
     enqueue_measurement tags_dict now import_queue measurement fields_dict"

section \<open>The sampling loop\<close>

text \<open>
  The world \<open>'w\<close> is everything outside the importer that a producer callback reads or
  changes, the clock included. \<open>time_time\<close> reads the clock, \<open>time_sleep\<close> lets time pass.
  A callback returns a pair of a measurement name and a fields dict, or raises; a result
  that does not unpack into two values raises at line 177 and counts as a raise.
\<close>

record 'w os =
  time_time :: "'w \<Rightarrow> real"
  time_sleep :: "real \<Rightarrow> 'w \<Rightarrow> 'w"

type_synonym ('w, 'f) callback = "'w \<Rightarrow> (py_exception + string \<times> 'f) \<times> 'w"

text \<open>
  The state of the sampling thread: the world, the import queue, and the history of the
  callbacks invoked (each by its index in \<^verbatim>\<open>_data_importer_callback_list\<close>).
\<close>

record ('w, 't, 'f) sampler =
  sp_world :: 'w
  sp_queue :: "('t, 'f) point py_queue"
  sp_invoked :: "nat list"

datatype sampling_exit = Tick_done | Tick_raised py_exception | Put_waits

text \<open>
  The \<^verbatim>\<open>for\<close> loop of lines 176 to 178 over the callbacks from index \<open>i\<close> on. It ends
  when the list is through, when a callback or \<^verbatim>\<open>import_data\<close> raises, or at a \<^verbatim>\<open>put\<close>
  that has to wait for room in the queue.
\<close>

fun sample_callbacks ::
  "'w os \<Rightarrow> 't \<Rightarrow> ('w, 'f) callback list \<Rightarrow> nat \<Rightarrow> ('w, 't, 'f) sampler \<Rightarrow>
     sampling_exit \<times> ('w, 't, 'f) sampler"
where
  "sample_callbacks os tags_dict [] i st = (Tick_done, st)"
| "sample_callbacks os tags_dict (data_importer_callback # rest) i st =
     (case data_importer_callback (sp_world st) of
        (Inl e, w) \<Rightarrow> (Tick_raised e, st\<lparr>sp_world := w, sp_invoked := sp_invoked st @ [i]\<rparr>)
      | (Inr (measurement, fields_dict), w) \<Rightarrow>
          (case import_data tags_dict (time_time os w) (sp_queue st) measurement fields_dict of
             Inl e \<Rightarrow> (Tick_raised e, st\<lparr>sp_world := w, sp_invoked := sp_invoked st @ [i]\<rparr>)
           | Inr None \<Rightarrow> (Put_waits, st\<lparr>sp_world := w, sp_invoked := sp_invoked st @ [i]\<rparr>)
           | Inr (Some q) \<Rightarrow>
               sample_callbacks os tags_dict rest (Suc i)
                 (st\<lparr>sp_world := w, sp_queue := q, sp_invoked := sp_invoked st @ [i]\<rparr>)))"

text \<open>Lines 170 to 173: a falsy \<^verbatim>\<open>interval\<close> (\<^verbatim>\<open>None\<close> or zero) gives the default.\<close>

definition choose_interval :: "real option \<Rightarrow> real" where
  "choose_interval interval =
     (case interval of None \<Rightarrow> SAMPLE_INTERVAL | Some x \<Rightarrow> if x \<noteq> 0 then x else SAMPLE_INTERVAL)"

text \<open>
  The \<^verbatim>\<open>while True\<close> loop of lines 175 to 179. It has no exit of its own: the call ends
  only when a tick does not complete, and has the value \<open>None\<close> when every tick does.
\<close>

partial_function (option) sampling_loop ::
  "'w os \<Rightarrow> 't \<Rightarrow> ('w, 'f) callback list \<Rightarrow> real \<Rightarrow> ('w, 't, 'f) sampler \<Rightarrow>
     (sampling_exit \<times> ('w, 't, 'f) sampler) option"
where
  "sampling_loop os tags_dict callbacks sample_interval st =
     (case sample_callbacks os tags_dict callbacks 0 st of
        (exit, st') \<Rightarrow>
          (case exit of
             Tick_done \<Rightarrow>
               sampling_loop os tags_dict callbacks sample_interval
                 (st'\<lparr>sp_world := time_sleep os sample_interval (sp_world st')\<rparr>)
           | Tick_raised e \<Rightarrow> Some (exit, st')
           | Put_waits \<Rightarrow> Some (exit, st')))"

definition start_sampling_thread ::
  "'w os \<Rightarrow> 't \<Rightarrow> ('w, 'f) callback list \<Rightarrow> real option \<Rightarrow> ('w, 't, 'f) sampler \<Rightarrow>
     (sampling_exit \<times> ('w, 't, 'f) sampler) option"
where
  "start_sampling_thread os tags_dict callbacks interval st =
     sampling_loop os tags_dict callbacks (choose_interval interval) st"

text \<open>The state after \<open>n\<close> ticks that all complete, each followed by the sleep.\<close>

fun ticks ::
  "'w os \<Rightarrow> 't \<Rightarrow> ('w, 'f) callback list \<Rightarrow> real \<Rightarrow> nat \<Rightarrow> ('w, 't, 'f) sampler \<Rightarrow>
     ('w, 't, 'f) sampler option"
where
  "ticks os tags_dict callbacks sample_interval 0 st = Some st"
| "ticks os tags_dict callbacks sample_interval (Suc n) st =
     (case sample_callbacks os tags_dict callbacks 0 st of
        (Tick_done, st') \<Rightarrow>
          ticks os tags_dict callbacks sample_interval n
            (st'\<lparr>sp_world := time_sleep os sample_interval (sp_world st')\<rparr>)
      | _ \<Rightarrow> None)"

section \<open>Dicts as objects\<close>

text \<open>
  A Python dict is an object: whoever holds a reference to it sees every later change of
  it. Where that matters, the tags and fields entries of a point are addresses in a heap
  of dicts, and the world of the callbacks has such a heap.
\<close>

type_synonym addr = nat

datatype py_value = Py_int int | Py_str string

type_synonym heap = "addr \<rightharpoonup> (string \<rightharpoonup> py_value)"

text \<open>What a point carries in a given heap: its own entries, with the two dicts looked up.\<close>

definition carried ::
  "heap \<Rightarrow> (addr, addr) point \<Rightarrow>
     ((string \<rightharpoonup> py_value) option, (string \<rightharpoonup> py_value) option) point"
where
  "carried h p =
     \<lparr>p_measurement = p_measurement p, p_tags = h (p_tags p), p_time = p_time p,
      p_fields = h (p_fields p)\<rparr>"

section \<open>The import thread\<close>

text \<open>
  \<^verbatim>\<open>import_thread\<close> runs beside the threads that put points, so it is modelled one step at
  a time. A step is one evaluation of a loop condition, one queue operation, the call of
  \<^verbatim>\<open>_import_data_list\<close>, or the sleep. The program counter names the line the thread is
  about to execute.
\<close>

datatype import_pc =
    At_while
  | At_if_not_empty
  | At_inner_while
  | At_get
  | At_import_data_list
  | At_sleep
  | Stopped
  | Died py_exception

text \<open>
  The queue and the flag \<^verbatim>\<open>_is_import_thread_running\<close> are shared with other threads;
  \<^verbatim>\<open>data_list\<close> is local to the thread. \<open>it_batches\<close> is the history of the arguments
  of the calls of \<^verbatim>\<open>_import_data_list\<close> that have ended, \<open>it_calls\<close> the number of
  \<^verbatim>\<open>write_points\<close> calls made so far.
\<close>

record ('t, 'f) import_thread =
  it_queue :: "('t, 'f) point py_queue"
  it_running :: bool
  it_pc :: import_pc
  it_data_list :: "('t, 'f) point list"
  it_batches :: "('t, 'f) point list list"
  it_calls :: nat
  it_log :: "log_entry list"

text \<open>
  \<^verbatim>\<open>start_importing_thread\<close>: the flag is set and the thread starts at line 136.
\<close>

definition start_importing_thread :: "('t, 'f) point py_queue \<Rightarrow> ('t, 'f) import_thread" where
  "start_importing_thread import_queue =
     \<lparr>it_queue = import_queue, it_running = True, it_pc = At_while, it_data_list = [],
      it_batches = [], it_calls = 0, it_log = [Info ''Importing started!'']\<rparr>"

text \<open>
  One step of \<^verbatim>\<open>import_thread\<close> (lines 136 to 148). \<open>client_write data_list k\<close> is what
  \<^verbatim>\<open>write_points\<close> does with this batch when the client has made \<open>k\<close> calls before. The
  step has the value \<open>None\<close> when the thread cannot move: it has ended, \<^verbatim>\<open>get\<close> waits on
  an empty queue, or \<^verbatim>\<open>_import_data_list\<close> never returns.
\<close>

definition import_thread_step ::
  "(('t, 'f) point list \<Rightarrow> string) \<Rightarrow> (('t, 'f) point list \<Rightarrow> nat \<Rightarrow> py_exception + bool) \<Rightarrow> bool \<Rightarrow>
     ('t, 'f) import_thread \<Rightarrow> ('t, 'f) import_thread option"
where
  "import_thread_step fmt client_write ignore_errors s =
     (case it_pc s of
        At_while \<Rightarrow>
          if it_running s then Some (s\<lparr>it_pc := At_if_not_empty\<rparr>)
          else Some (s\<lparr>it_pc := Stopped, it_log := it_log s @ [Info ''Importing stopped!'']\<rparr>)
      | At_if_not_empty \<Rightarrow>
          if \<not> queue_empty (it_queue s) then Some (s\<lparr>it_pc := At_inner_while, it_data_list := []\<rparr>)
          else Some (s\<lparr>it_pc := At_sleep\<rparr>)
      | At_inner_while \<Rightarrow>
          if \<not> queue_empty (it_queue s) then Some (s\<lparr>it_pc := At_get\<rparr>)
          else Some (s\<lparr>it_pc := At_import_data_list\<rparr>)
      | At_get \<Rightarrow>
          (case queue_get (it_queue s) of
             None \<Rightarrow> None
           | Some (x, q) \<Rightarrow>
               Some (s\<lparr>it_queue := q, it_data_list := it_data_list s @ [x],
                       it_pc := At_inner_while\<rparr>))
      | At_import_data_list \<Rightarrow>
          (case import_data_list fmt (\<lambda>d k. client_write d (it_calls s + k)) ignore_errors
                  (it_data_list s) of
             None \<Rightarrow> None
           | Some r \<Rightarrow>
               Some (s\<lparr>it_batches := it_batches s @ [it_data_list s],
                       it_calls := it_calls s + attempts r,
                       it_log := it_log s @ logged r,
                       it_pc := (case outcome r of Inr u \<Rightarrow> At_while | Inl e \<Rightarrow> Died e)\<rparr>))
      | At_sleep \<Rightarrow> Some (s\<lparr>it_pc := At_while\<rparr>)
      | Stopped \<Rightarrow> None
      | Died e \<Rightarrow> None)"

text \<open>
  What can happen next in the process: the import thread takes a step, a \<^verbatim>\<open>put\<close> of
  another thread completes (from \<^verbatim>\<open>_enqueue_measurement\<close>; it cannot while the queue is
  full), or \<^verbatim>\<open>stop_importing_thread\<close> clears the flag.
\<close>

datatype ('t, 'f) event = Import_thread_step | Put "('t, 'f) point" | Stop_importing_thread

fun step ::
  "(('t, 'f) point list \<Rightarrow> string) \<Rightarrow> (('t, 'f) point list \<Rightarrow> nat \<Rightarrow> py_exception + bool) \<Rightarrow> bool \<Rightarrow>
     ('t, 'f) event \<Rightarrow> ('t, 'f) import_thread \<Rightarrow> ('t, 'f) import_thread option"
where
  "step fmt client_write ignore_errors Import_thread_step s =
     import_thread_step fmt client_write ignore_errors s"
| "step fmt client_write ignore_errors (Put p) s =
     (case queue_put (it_queue s) p of
        None \<Rightarrow> None
      | Some q \<Rightarrow> Some (s\<lparr>it_queue := q\<rparr>))"
| "step fmt client_write ignore_errors Stop_importing_thread s = Some (s\<lparr>it_running := False\<rparr>)"

text \<open>A schedule is run event by event; it has no result when one of its events cannot happen.\<close>

fun run ::
  "(('t, 'f) point list \<Rightarrow> string) \<Rightarrow> (('t, 'f) point list \<Rightarrow> nat \<Rightarrow> py_exception + bool) \<Rightarrow> bool \<Rightarrow>
     ('t, 'f) event list \<Rightarrow> ('t, 'f) import_thread \<Rightarrow> ('t, 'f) import_thread option"
where
  "run fmt client_write ignore_errors [] s = Some s"
| "run fmt client_write ignore_errors (ev # evs) s =
     (case step fmt client_write ignore_errors ev s of
        None \<Rightarrow> None
      | Some s' \<Rightarrow> run fmt client_write ignore_errors evs s')"

text \<open>The points whose \<^verbatim>\<open>put\<close> completes in a schedule, in order.\<close>

fun puts_of :: "('t, 'f) event list \<Rightarrow> ('t, 'f) point list" where
  "puts_of [] = []"
| "puts_of (Put p # evs) = p # puts_of evs"
| "puts_of (ev # evs) = puts_of evs"

text \<open>The points the thread has taken from the queue and not yet handed to \<^verbatim>\<open>_import_data_list\<close>.\<close>

definition in_flight :: "('t, 'f) import_thread \<Rightarrow> ('t, 'f) point list" where
  "in_flight s =
     (if it_pc s = At_inner_while \<or> it_pc s = At_get \<or> it_pc s = At_import_data_list
      then it_data_list s else [])"

text \<open>What holds of the import thread between any two steps.\<close>

definition drain_invariant :: "('t, 'f) import_thread \<Rightarrow> bool" where
  "drain_invariant s \<longleftrightarrow>
     (it_pc s = At_get \<longrightarrow> items (it_queue s) \<noteq> [])
   \<and> (it_pc s = At_inner_while \<longrightarrow> it_data_list s \<noteq> [] \<or> items (it_queue s) \<noteq> [])
   \<and> (it_pc s = At_import_data_list \<longrightarrow> it_data_list s \<noteq> [])
   \<and> [] \<notin> set (it_batches s)"

text \<open>Every point the process has seen, in the order of its way through it.\<close>

definition accounted :: "('t, 'f) import_thread \<Rightarrow> ('t, 'f) point list" where
  "accounted s = concat (it_batches s) @ in_flight s @ items (it_queue s)"

section \<open>The constructor\<close>

text \<open>
  The calls of the client library that \<^verbatim>\<open>_create_database\<close> makes, over the state \<open>'s\<close> of
  the server; each returns or raises. \<^verbatim>\<open>get_list_database\<close> is taken to return the names.
\<close>

record 's influxdb_client =
  client_get_list_database :: "'s \<Rightarrow> py_exception + string list"
  client_create_database :: "string \<Rightarrow> 's \<Rightarrow> py_exception + 's"
  client_switch_database :: "string \<Rightarrow> 's \<Rightarrow> py_exception + 's"

text \<open>What the constructor does to the outside, in order.\<close>

datatype effect =
    Get_list_database
  | Create_database string
  | Switch_database string
  | Log log_entry
  | Thread_start_import_thread

text \<open>\<^verbatim>\<open>_create_database\<close>, lines 73 to 79.\<close>

definition create_database ::
  "'s influxdb_client \<Rightarrow> string \<Rightarrow> 's \<Rightarrow> effect list \<times> (py_exception + 's)"
where
  "create_database client name srv =
     (case client_get_list_database client srv of
        Inl e \<Rightarrow> ([Get_list_database], Inl e)
      | Inr database_list \<Rightarrow>
          if name \<in> set database_list then
            ([Get_list_database,
              Log (Info (''Database with name '' @ name
                         @ '' already exists. Do not create a new database'')),
              Switch_database name],
             client_switch_database client name srv)
          else
            (case client_create_database client name srv of
               Inl e \<Rightarrow>
                 ([Get_list_database, Log (Info (''Creating database '' @ name)),
                   Create_database name], Inl e)
             | Inr srv' \<Rightarrow>
                 ([Get_list_database, Log (Info (''Creating database '' @ name)),
                   Create_database name, Switch_database name],
                  client_switch_database client name srv')))"

text \<open>
  The attributes of an \<^verbatim>\<open>InfluxdbImporter\<close> that the loops use. Host, port, user name and
  password only go into the client object and are left out, as is the logger.
\<close>

record ('w, 't, 'f) importer =
  self_database_name :: string
  self_tags_dict :: 't
  self_data_importer_callback_list :: "('w, 'f) callback list"
  self_ignore_errors :: bool
  self_sample_interval :: real
  self_import_queue :: "('t, 'f) point py_queue"
  self_is_import_thread_running :: bool

text \<open>
  \<^verbatim>\<open>__init__\<close>, lines 41 to 65: the attributes, \<^verbatim>\<open>_create_database\<close>, the queue, and
  \<^verbatim>\<open>start_importing_thread\<close> (lines 133 and 150 to 152). The result is what the
  constructor did to the outside, and the new object with the state of the server, or the
  exception that ended it.
\<close>

definition init ::
  "'s influxdb_client \<Rightarrow> 's \<Rightarrow> string \<Rightarrow> 't \<Rightarrow> ('w, 'f) callback list \<Rightarrow> bool \<Rightarrow>
     int \<Rightarrow> effect list \<times> (py_exception + ('w, 't, 'f) importer \<times> 's)"
where
  "init client srv database_name tags_dict data_importer_callback_list ignore_errors
        import_queue_size =
     (case create_database client database_name srv of
        (effects, Inl e) \<Rightarrow> (effects, Inl e)
      | (effects, Inr srv') \<Rightarrow>
          (effects @ [Thread_start_import_thread, Log (Info ''Importing started!'')],
           Inr (\<lparr>self_database_name = database_name,
                 self_tags_dict = tags_dict,
                 self_data_importer_callback_list = data_importer_callback_list,
                 self_ignore_errors = ignore_errors,
                 self_sample_interval = SAMPLE_INTERVAL,
                 self_import_queue = Queue import_queue_size,
                 self_is_import_thread_running = True\<rparr>, srv')))"

section \<open>Properties of the retrying write\<close>



lemma client_errors_step:
  "lo < hi \<Longrightarrow> client_errors wp d lo hi =
     (if is_client_error (wp d lo) then 1 else 0) + client_errors wp d (Suc lo) hi"
  by (simp add: client_errors_def upt_conv_Cons)

lemma exit_sound_step:
  "exit_sound wp d (Suc calls) c' r \<Longrightarrow>
   c' \<le> c + (if is_client_error (wp d calls) then 1 else 0) \<Longrightarrow> exit_sound wp d calls c r"
proof -
  obtain e n where r: "r = (e, n)" by (cases r)
  assume "exit_sound wp d (Suc calls) c' r"
    and "c' \<le> c + (if is_client_error (wp d calls) then 1 else 0)"
  then show ?thesis unfolding r
    by (cases e) (auto simp: client_errors_step [of calls] split: if_splits)
qed

lemma retry_loop_done:
  "\<not> c < IMPORT_RETRY \<Longrightarrow> retry_loop wp d calls c m = Some (Retries_exhausted m, calls)"
  by (subst retry_loop.simps) simp

lemma retry_loop_truthy:
  "c < IMPORT_RETRY \<Longrightarrow> wp d calls = Inr True \<Longrightarrow>
     retry_loop wp d calls c m = Some (Return_success, Suc calls)"
  by (subst retry_loop.simps) simp

lemma retry_loop_falsy:
  "c < IMPORT_RETRY \<Longrightarrow> wp d calls = Inr False \<Longrightarrow>
     retry_loop wp d calls c m = retry_loop wp d (Suc calls) c m"
  by (subst retry_loop.simps) simp

lemma retry_loop_client_error:
  "c < IMPORT_RETRY \<Longrightarrow> wp d calls = Inl (InfluxDBClientError ex) \<Longrightarrow>
     retry_loop wp d calls c m = retry_loop wp d (Suc calls) (c + 1) (Some ex)"
  by (subst retry_loop.simps) simp

lemma retry_loop_foreign:
  "c < IMPORT_RETRY \<Longrightarrow> wp d calls = Inl e \<Longrightarrow> is_foreign_raise (Inl e) \<Longrightarrow>
     retry_loop wp d calls c m = Some (Propagate e, Suc calls)"
  by (subst retry_loop.simps) (cases e; simp)

lemma write_outcome_cases:
  fixes x :: "py_exception + bool"
  obtains (truthy) "x = Inr True"
  | (falsy) "x = Inr False"
  | (client_error) ex where "x = Inl (InfluxDBClientError ex)"
  | (foreign) e where "x = Inl e" and "is_foreign_raise (Inl e)"
proof (cases x)
  case (Inl e)
  then show ?thesis using client_error foreign by (cases e) auto
next
  case (Inr ok)
  then show ?thesis using truthy falsy by (cases ok) auto
qed

lemma retry_loop_exit_sound:
  "retry_loop wp d calls c m = Some r \<Longrightarrow> exit_sound wp d calls c r"
proof (induct rule: retry_loop.raw_induct [rotated, consumes 1])
  case (1 f wp d calls c m r)
  show ?case
  proof (cases "c < IMPORT_RETRY")
    case False
    with 1(2) show ?thesis by (auto simp: client_errors_def)
  next
    case True
    note lt = this
    show ?thesis
    proof (cases "wp d calls" rule: write_outcome_cases)
      case truthy
      with 1(2) lt show ?thesis by auto
    next
      case falsy
      from 1(2) have "f wp d (Suc calls) c m = Some r" by (simp add: lt falsy)
      then have "exit_sound wp d (Suc calls) c r" by (rule 1(1))
      then show ?thesis by (rule exit_sound_step) simp
    next
      case (client_error ex)
      from 1(2) have "f wp d (Suc calls) (c + 1) (Some ex) = Some r"
        by (simp add: lt client_error)
      then have "exit_sound wp d (Suc calls) (c + 1) r" by (rule 1(1))
      then show ?thesis by (rule exit_sound_step) (simp add: client_error)
    next
      case (foreign e)
      from 1(2) have "r = (Propagate e, Suc calls)"
        using foreign by (cases e) (auto simp: lt)
      with foreign show ?thesis by simp
    qed
  qed
qed

text \<open>The loop ends once an attempt can end it.\<close>

lemma retry_loop_reaches:
  "wp d n = Inr True \<or> is_foreign_raise (wp d n) \<Longrightarrow> calls \<le> n \<Longrightarrow>
     \<exists>r. retry_loop wp d calls c m = Some r"
proof (induction "n - calls" arbitrary: calls c m)
  case 0
  then have n: "calls = n" by simp
  show ?case
  proof (cases "c < IMPORT_RETRY")
    case False
    then show ?thesis by (simp add: retry_loop_done)
  next
    case True
    from 0(2) show ?thesis unfolding n
      by (cases "wp d n" rule: write_outcome_cases)
         (simp_all add: retry_loop_truthy retry_loop_foreign True)
  qed
next
  case (Suc j)
  then have IH: "\<And>c m. \<exists>r. retry_loop wp d (Suc calls) c m = Some r" by simp
  show ?case
  proof (cases "c < IMPORT_RETRY")
    case False
    then show ?thesis by (simp add: retry_loop_done)
  next
    case True
    show ?thesis
    proof (cases "wp d calls" rule: write_outcome_cases)
      case truthy
      then show ?thesis by (simp add: retry_loop_truthy True)
    next
      case falsy
      then show ?thesis using IH [of c m] by (simp add: retry_loop_falsy True falsy)
    next
      case (client_error ex)
      then show ?thesis using IH [of "c + 1" "Some ex"]
        by (simp add: retry_loop_client_error True client_error)
    next
      case (foreign e)
      then show ?thesis by (simp add: retry_loop_foreign True)
    qed
  qed
qed

lemma retry_loop_exhausts:
  "IMPORT_RETRY \<le> c + client_errors wp d calls n \<Longrightarrow> \<exists>r. retry_loop wp d calls c m = Some r"
proof (induction "n - calls" arbitrary: calls c m)
  case 0
  then have "client_errors wp d calls n = 0" by (simp add: client_errors_def)
  with 0 have "\<not> c < IMPORT_RETRY" by simp
  then show ?case by (simp add: retry_loop_done)
next
  case (Suc j)
  then have lt: "calls < n" by simp
  have IH: "\<And>c m. IMPORT_RETRY \<le> c + client_errors wp d (Suc calls) n \<Longrightarrow>
      \<exists>r. retry_loop wp d (Suc calls) c m = Some r"
    using Suc(1) [of "Suc calls"] Suc(2) by simp
  show ?case
  proof (cases "c < IMPORT_RETRY")
    case False
    then show ?thesis by (simp add: retry_loop_done)
  next
    case True
    show ?thesis
    proof (cases "wp d calls" rule: write_outcome_cases)
      case truthy
      then show ?thesis by (simp add: retry_loop_truthy True)
    next
      case falsy
      with Suc(3) have "IMPORT_RETRY \<le> c + client_errors wp d (Suc calls) n"
        by (simp add: client_errors_step [OF lt])
      then have "\<exists>r. retry_loop wp d (Suc calls) c m = Some r" by (rule IH)
      then show ?thesis by (simp add: retry_loop_falsy True falsy)
    next
      case (client_error ex)
      with Suc(3) have "IMPORT_RETRY \<le> (c + 1) + client_errors wp d (Suc calls) n"
        by (simp add: client_errors_step [OF lt])
      then have "\<exists>r. retry_loop wp d (Suc calls) (c + 1) (Some ex) = Some r" by (rule IH)
      then show ?thesis by (simp add: retry_loop_client_error True client_error)
    next
      case (foreign e)
      then show ?thesis by (simp add: retry_loop_foreign True)
    qed
  qed
qed

lemma import_data_list_None:
  "import_data_list fmt wp ig d = None \<longleftrightarrow> retry_loop wp d 0 0 None = None"
  by (simp add: import_data_list_def split: option.splits prod.splits)

text \<open>
  The loop ends exactly when an attempt can end it: a truthy return, the last of
  \<^verbatim>\<open>IMPORT_RETRY\<close> client errors, or an exception the handler does not catch.
\<close>

lemma retry_loop_ends_iff:
  "((\<exists>r. import_data_list fmt write_points ignore_errors data_list = Some r) \<longleftrightarrow>
       (\<exists>k. write_points data_list k = Inr True)
     \<or> (\<exists>n. IMPORT_RETRY \<le> client_errors write_points data_list 0 n)
     \<or> (\<exists>k. is_foreign_raise (write_points data_list k)))
   \<and> (import_count < IMPORT_RETRY \<and> write_points data_list calls = Inr False \<longrightarrow>
        retry_loop write_points data_list calls import_count ex_message =
        retry_loop write_points data_list (Suc calls) import_count ex_message)
   \<and> ((\<forall>k. write_points data_list k = Inr False) \<longrightarrow>
        import_data_list fmt write_points ignore_errors data_list = None)"
  (is "(?L \<longleftrightarrow> ?R) \<and> ?step \<and> ?forever")
proof (intro conjI)
  show iff: "?L \<longleftrightarrow> ?R"
  proof
    assume ?L
    then obtain r where r: "retry_loop write_points data_list 0 0 None = Some r"
      using import_data_list_None [of fmt write_points ignore_errors data_list] by auto
    obtain e n where en: "r = (e, n)" by (cases r)
    from retry_loop_exit_sound [OF r] have s: "exit_sound write_points data_list 0 0 (e, n)"
      unfolding en .
    show ?R
    proof (cases e)
      case Return_success
      with s show ?thesis by auto
    next
      case (Propagate x)
      with s have "is_foreign_raise (write_points data_list (n - 1))" by simp
      then show ?thesis by blast
    next
      case (Retries_exhausted x)
      with s show ?thesis by auto
    qed
  next
    assume ?R
    then have "\<exists>r. retry_loop write_points data_list 0 0 None = Some r"
      using retry_loop_reaches [of write_points data_list _ 0 0 None]
        retry_loop_exhausts [of 0 write_points data_list 0 _ None]
      by auto
    then show ?L
      using import_data_list_None [of fmt write_points ignore_errors data_list] by auto
  qed
  show ?step by (simp add: retry_loop_falsy)
  show ?forever
  proof
    assume falsy: "\<forall>k. write_points data_list k = Inr False"
    then have "\<not> ?R" by (simp add: client_errors_def IMPORT_RETRY_def)
    with iff have "\<not> ?L" by simp
    then show "import_data_list fmt write_points ignore_errors data_list = None" by simp
  qed
qed


subsection \<open>The retry bound\<close>




subsection \<open>The failure policy\<close>




subsection \<open>Exceptions the handler does not catch\<close>

text \<open>
  C3. The handler at line 108 names \<^verbatim>\<open>InfluxDBClientError\<close> only. A write attempt that
  raises any other exception (the client library raises a connection error of the HTTP
  layer when the server refuses the connection) is not retried: the exception leaves
  \<^verbatim>\<open>_import_data_list\<close> after one attempt, also with \<^verbatim>\<open>ignore_errors\<close> set.
\<close>

theorem foreign_exception_not_retried:
  "import_data_list (\<lambda>ds. ''[p]'') (\<lambda>ds k. Inl (Other_exception ''ConnectionError: refused'')) True
       [\<lparr>p_measurement = ''m'', p_tags = [''host'' \<mapsto> ''a''], p_time = 5, p_fields = (1::int)\<rparr>] =
     Some \<lparr>outcome = Inl (Other_exception ''ConnectionError: refused''), attempts = 1,
           logged = [Info ''Importing Data: [p]'']\<rparr>"
  by (simp add: import_data_list_def retry_loop_foreign IMPORT_RETRY_def)

subsection \<open>When the retry loop ends\<close>

text \<open>
  C10, as the claim states it: the loop ends if and only if some attempt returns a truthy
  value or \<^verbatim>\<open>IMPORT_RETRY\<close> attempts raise \<^verbatim>\<open>InfluxDBClientError\<close>. That fails for a
  backend whose attempts raise another exception: the first one ends the loop.
\<close>

theorem terminates_iff_counterexample:
  "\<not> ((\<exists>r. import_data_list (\<lambda>ds. ''[p]'')
             (\<lambda>ds k. Inl (Other_exception ''ConnectionError: refused'')) True
             [\<lparr>p_measurement = ''m'', p_tags = [''host'' \<mapsto> ''a''], p_time = 5, p_fields = (1::int)\<rparr>] = Some r)
      \<longleftrightarrow>
        (\<exists>k. (\<lambda>ds k. Inl (Other_exception ''ConnectionError: refused''))
               [\<lparr>p_measurement = ''m'', p_tags = [''host'' \<mapsto> ''a''], p_time = 5, p_fields = (1::int)\<rparr>] k
             = (Inr True :: py_exception + bool))
      \<or> (\<exists>n. IMPORT_RETRY \<le> client_errors
               (\<lambda>ds k. Inl (Other_exception ''ConnectionError: refused''))
               [\<lparr>p_measurement = ''m'', p_tags = [''host'' \<mapsto> ''a''], p_time = 5, p_fields = (1::int)\<rparr>] 0 n))"
  by (simp add: import_data_list_def retry_loop_foreign client_errors_def IMPORT_RETRY_def)

text \<open>
  C10, amended: against a backend whose attempts return or raise \<^verbatim>\<open>InfluxDBClientError\<close>,
  the loop ends if and only if some attempt returns a truthy value or \<^verbatim>\<open>IMPORT_RETRY\<close>
  attempts raise \<^verbatim>\<open>InfluxDBClientError\<close>. An attempt that returns a falsy value leaves
  \<^verbatim>\<open>import_count\<close> and \<^verbatim>\<open>ex_message\<close> as they were, and against a backend whose every
  attempt does so the call never returns.
\<close>

theorem retry_loop_terminates_iff:
  assumes "\<forall>k. \<not> is_foreign_raise (write_points data_list k)"
  shows "((\<exists>r. import_data_list fmt write_points ignore_errors data_list = Some r) \<longleftrightarrow>
       (\<exists>k. write_points data_list k = Inr True)
     \<or> (\<exists>n. IMPORT_RETRY \<le> client_errors write_points data_list 0 n))
   \<and> (import_count < IMPORT_RETRY \<and> write_points data_list calls = Inr False \<longrightarrow>
        retry_loop write_points data_list calls import_count ex_message =
        retry_loop write_points data_list (Suc calls) import_count ex_message)
   \<and> ((\<forall>k. write_points data_list k = Inr False) \<longrightarrow>
        import_data_list fmt write_points ignore_errors data_list = None)"
  using assms
    retry_loop_ends_iff [of fmt write_points ignore_errors data_list import_count calls ex_message]
  by simp

theorem retry_loop_terminates_iff_witness:
  "(\<exists>r. import_data_list (\<lambda>ds. ''[p]'') (\<lambda>ds (k::nat). Inr (2 \<le> k)) True
         [\<lparr>p_measurement = ''m'', p_tags = [''host'' \<mapsto> ''a''], p_time = 5, p_fields = (1::int)\<rparr>] = Some r)
   \<and> import_data_list (\<lambda>ds. ''[p]'') (\<lambda>ds k. Inr False) True
         [\<lparr>p_measurement = ''m'', p_tags = [''host'' \<mapsto> ''a''], p_time = 5, p_fields = (1::int)\<rparr>] = None"
proof -
  let ?d = "[\<lparr>p_measurement = ''m'', p_tags = [''host'' \<mapsto> ''a''], p_time = 5, p_fields = (1::int)\<rparr>]"
  have a: "\<forall>k. \<not> is_foreign_raise ((\<lambda>ds (k::nat). Inr (2 \<le> k) :: py_exception + bool) ?d k)"
    and b: "\<forall>k. \<not> is_foreign_raise ((\<lambda>ds (k::nat). Inr False :: py_exception + bool) ?d k)"
    by simp_all
  have t: "(\<lambda>ds (k::nat). Inr (2 \<le> k) :: py_exception + bool) ?d 2 = Inr True"
    by simp
  from retry_loop_terminates_iff [where write_points = "\<lambda>ds (k::nat). Inr (2 \<le> k)"
      and data_list = ?d and fmt = "\<lambda>ds. ''[p]''" and ignore_errors = True
      and import_count = 0 and calls = 0 and ex_message = None, OF a] t
  have "\<exists>r. import_data_list (\<lambda>ds. ''[p]'') (\<lambda>ds (k::nat). Inr (2 \<le> k)) True ?d = Some r"
    by blast
  moreover from retry_loop_terminates_iff [where write_points = "\<lambda>ds k. Inr False"
      and data_list = ?d and fmt = "\<lambda>ds. ''[p]''" and ignore_errors = True
      and import_count = 0 and calls = 0 and ex_message = None, OF b]
  have "import_data_list (\<lambda>ds. ''[p]'') (\<lambda>ds k. Inr False) True ?d = None"
    by simp
  ultimately show ?thesis by simp
qed

section \<open>Properties of the queue and of enqueueing\<close>

lemma drain_eq: "drain q data_list = (data_list @ items q, q\<lparr>items := []\<rparr>)"
proof (induction q data_list rule: drain.induct)
  case (1 q data_list)
  show ?case
  proof (cases "items q")
    case Nil
    then show ?thesis by (subst drain.simps) (simp add: queue_empty_def)
  next
    case (Cons x xs)
    then have g: "queue_get q = Some (x, q\<lparr>items := xs\<rparr>)" and ne: "\<not> queue_empty q"
      by (simp_all add: queue_get_def queue_empty_def)
    have "drain q data_list = drain (q\<lparr>items := xs\<rparr>) (data_list @ [x])"
      by (subst drain.simps) (simp add: g ne)
    also have "\<dots> = ((data_list @ [x]) @ items (q\<lparr>items := xs\<rparr>), q\<lparr>items := xs, items := []\<rparr>)"
      using "1.IH" [OF ne g refl] by simp
    finally show ?thesis by (simp add: Cons)
  qed
qed

lemma queue_put_Some:
  "queue_put q x = Some q' \<Longrightarrow> items q' = items q @ [x] \<and> maxsize q' = maxsize q"
  by (auto simp: queue_put_def split: if_splits)

lemma queue_puts_Some:
  "queue_puts q xs = Some q' \<Longrightarrow> items q' = items q @ xs \<and> maxsize q' = maxsize q"
proof (induction xs arbitrary: q)
  case Nil
  then show ?case by simp
next
  case (Cons x xs)
  then obtain q1 where q1: "queue_put q x = Some q1" and rest: "queue_puts q1 xs = Some q'"
    by (auto split: option.splits)
  from Cons.IH [OF rest] queue_put_Some [OF q1] show ?case by simp
qed

text \<open>
  C6. After a run of \<^verbatim>\<open>put\<close> calls that all complete, with no drain in between, the
  drain of lines 140 to 142 returns what the queue held before, followed by the points put,
  in the order of the calls, and leaves the queue empty. On a queue that was empty before
  (a new one, or one just drained) it returns exactly the points put.
\<close>

theorem fifo_drain:
  assumes "queue_puts q ps = Some q'"
  shows "fst (drain q' []) = items q @ ps
       \<and> queue_empty (snd (drain q' []))
       \<and> (queue_empty q \<longrightarrow> fst (drain q' []) = ps)"
  using queue_puts_Some [OF assms] by (simp add: drain_eq queue_empty_def)

theorem fifo_drain_witness:
  "queue_puts (Queue 2) [''A'', ''B''] = Some \<lparr>maxsize = 2, items = [''A'', ''B'']\<rparr>
   \<and> fst (drain \<lparr>maxsize = 2, items = [''A'', ''B'']\<rparr> []) = [''A'', ''B'']
   \<and> queue_empty (snd (drain \<lparr>maxsize = 2, items = [''A'', ''B'']\<rparr> []))"
proof -
  have h: "queue_puts (Queue 2) [''A'', ''B''] = Some \<lparr>maxsize = 2, items = [''A'', ''B'']\<rparr>"
    by (simp add: Queue_def queue_put_def)
  from fifo_drain [OF h] h show ?thesis by (simp add: Queue_def queue_empty_def)
qed

lemma float_mul_example: "float_mul (3753904025179783 / 2097152) 1000 = Some 1790000927534"
  by code_simp

lemma float_mul_0: "float_mul 0 1000 = Some 0"
  by (simp add: float_mul_def float_round_def)

lemma float_mul_1: "float_mul 1 1000 = Some 1000"
  by code_simp

lemma float_mul_half: "float_mul (21 / 2) 1000 = Some 10500"
  by code_simp

lemma enqueue_measurement_Some:
  "enqueue_measurement tags_dict now q measurement fields_dict = Inr (Some q') \<Longrightarrow>
     \<exists>ms. float_mul now 1000 = Some ms
        \<and> items q' = items q @ [\<lparr>p_measurement = measurement, p_tags = tags_dict,
                                 p_time = py_int ms, p_fields = fields_dict\<rparr>]
        \<and> maxsize q' = maxsize q"
  by (auto simp: enqueue_measurement_def dest!: queue_put_Some split: option.splits)

text \<open>
  C9, as the claim states it: an enqueued point is never mutated afterwards. The point
  holds the fields dict that the callback returned, not a copy. A callback that keeps
  one dict and writes the current sample into it on every call changes the point that is
  still in the queue: after the second tick the first point carries the second sample.
\<close>

theorem point_mutated_counterexample:
  "ticks \<lparr>time_time = snd, time_sleep = (\<lambda>d (h, t). (h, t + d))\<rparr> (0::addr)
       [\<lambda>(h, t). (Inr (''m'', 1::addr), (h(1 \<mapsto> [''tick'' \<mapsto> Py_int \<lfloor>t\<rfloor>]), t))] 1 1
       \<lparr>sp_world = ([0 \<mapsto> [''tag'' \<mapsto> Py_str ''v'']], 0), sp_queue = Queue 0, sp_invoked = []\<rparr>
     = Some \<lparr>sp_world = ([0 \<mapsto> [''tag'' \<mapsto> Py_str ''v''], 1 \<mapsto> [''tick'' \<mapsto> Py_int 0]], 1),
             sp_queue = \<lparr>maxsize = 0, items =
               [\<lparr>p_measurement = ''m'', p_tags = 0, p_time = 0, p_fields = 1\<rparr>]\<rparr>,
             sp_invoked = [0]\<rparr>
   \<and> ticks \<lparr>time_time = snd, time_sleep = (\<lambda>d (h, t). (h, t + d))\<rparr> (0::addr)
       [\<lambda>(h, t). (Inr (''m'', 1::addr), (h(1 \<mapsto> [''tick'' \<mapsto> Py_int \<lfloor>t\<rfloor>]), t))] 1 2
       \<lparr>sp_world = ([0 \<mapsto> [''tag'' \<mapsto> Py_str ''v'']], 0), sp_queue = Queue 0, sp_invoked = []\<rparr>
     = Some \<lparr>sp_world = ([0 \<mapsto> [''tag'' \<mapsto> Py_str ''v''], 1 \<mapsto> [''tick'' \<mapsto> Py_int 1]], 2),
             sp_queue = \<lparr>maxsize = 0, items =
               [\<lparr>p_measurement = ''m'', p_tags = 0, p_time = 0, p_fields = 1\<rparr>,
                \<lparr>p_measurement = ''m'', p_tags = 0, p_time = 1000, p_fields = 1\<rparr>]\<rparr>,
             sp_invoked = [0, 0]\<rparr>
   \<and> carried [0 \<mapsto> [''tag'' \<mapsto> Py_str ''v''], 1 \<mapsto> [''tick'' \<mapsto> Py_int 0]]
         \<lparr>p_measurement = ''m'', p_tags = 0, p_time = 0, p_fields = 1\<rparr>
     \<noteq> carried [0 \<mapsto> [''tag'' \<mapsto> Py_str ''v''], 1 \<mapsto> [''tick'' \<mapsto> Py_int 1]]
         \<lparr>p_measurement = ''m'', p_tags = 0, p_time = 0, p_fields = 1\<rparr>"
proof (intro conjI)
  show "ticks \<lparr>time_time = snd, time_sleep = (\<lambda>d (h, t). (h, t + d))\<rparr> (0::addr)
       [\<lambda>(h, t). (Inr (''m'', 1::addr), (h(1 \<mapsto> [''tick'' \<mapsto> Py_int \<lfloor>t\<rfloor>]), t))] 1 1
       \<lparr>sp_world = ([0 \<mapsto> [''tag'' \<mapsto> Py_str ''v'']], 0), sp_queue = Queue 0, sp_invoked = []\<rparr>
     = Some \<lparr>sp_world = ([0 \<mapsto> [''tag'' \<mapsto> Py_str ''v''], 1 \<mapsto> [''tick'' \<mapsto> Py_int 0]], 1),
             sp_queue = \<lparr>maxsize = 0, items =
               [\<lparr>p_measurement = ''m'', p_tags = 0, p_time = 0, p_fields = 1\<rparr>]\<rparr>,
             sp_invoked = [0]\<rparr>"
    by (simp add: import_data_def enqueue_measurement_def float_mul_0 queue_put_def Queue_def
        py_int_def)
  show "ticks \<lparr>time_time = snd, time_sleep = (\<lambda>d (h, t). (h, t + d))\<rparr> (0::addr)
       [\<lambda>(h, t). (Inr (''m'', 1::addr), (h(1 \<mapsto> [''tick'' \<mapsto> Py_int \<lfloor>t\<rfloor>]), t))] 1 2
       \<lparr>sp_world = ([0 \<mapsto> [''tag'' \<mapsto> Py_str ''v'']], 0), sp_queue = Queue 0, sp_invoked = []\<rparr>
     = Some \<lparr>sp_world = ([0 \<mapsto> [''tag'' \<mapsto> Py_str ''v''], 1 \<mapsto> [''tick'' \<mapsto> Py_int 1]], 2),
             sp_queue = \<lparr>maxsize = 0, items =
               [\<lparr>p_measurement = ''m'', p_tags = 0, p_time = 0, p_fields = 1\<rparr>,
                \<lparr>p_measurement = ''m'', p_tags = 0, p_time = 1000, p_fields = 1\<rparr>]\<rparr>,
             sp_invoked = [0, 0]\<rparr>"
    by (simp add: numeral_2_eq_2 import_data_def enqueue_measurement_def float_mul_0 float_mul_1
        queue_put_def Queue_def py_int_def)
  show "carried [0 \<mapsto> [''tag'' \<mapsto> Py_str ''v''], 1 \<mapsto> [''tick'' \<mapsto> Py_int 0]]
         \<lparr>p_measurement = ''m'', p_tags = 0, p_time = 0, p_fields = 1\<rparr>
     \<noteq> carried [0 \<mapsto> [''tag'' \<mapsto> Py_str ''v''], 1 \<mapsto> [''tick'' \<mapsto> Py_int 1]]
         \<lparr>p_measurement = ''m'', p_tags = 0, p_time = 0, p_fields = 1\<rparr>"
  proof
    assume "carried [0 \<mapsto> [''tag'' \<mapsto> Py_str ''v''], 1 \<mapsto> [''tick'' \<mapsto> Py_int 0]]
         \<lparr>p_measurement = ''m'', p_tags = 0, p_time = 0, p_fields = 1\<rparr>
     = carried [0 \<mapsto> [''tag'' \<mapsto> Py_str ''v''], 1 \<mapsto> [''tick'' \<mapsto> Py_int 1]]
         \<lparr>p_measurement = ''m'', p_tags = 0, p_time = 0, p_fields = 1\<rparr>"
    then have "[''tick'' \<mapsto> Py_int 0] = [''tick'' \<mapsto> Py_int 1]"
      by (simp add: carried_def)
    then have "[''tick'' \<mapsto> Py_int 0] ''tick'' = [''tick'' \<mapsto> Py_int 1] ''tick''"
      by (rule arg_cong)
    then show False by simp
  qed
qed

text \<open>
  C9, amended. \<^verbatim>\<open>_enqueue_measurement\<close> builds the point once: the given measurement
  name, the importer's tags dict and the given fields dict as they are passed in (the
  objects, not copies), and as time the clock read in this call, multiplied by 1000 as a
  float and truncated. The point goes to the end of the queue and the drain hands it on
  with the same four entries. In a sampling tick, the clock is read in the world the
  callback has left behind, after the sample was generated. What the point carries stays
  the same as long as the two dicts it refers to stay the same.
\<close>

theorem enqueue_point:
  "(enqueue_measurement tags_dict now q measurement fields_dict = Inr (Some q') \<longrightarrow>
      (\<exists>ms. float_mul now 1000 = Some ms
        \<and> items q' = items q @ [\<lparr>p_measurement = measurement, p_tags = tags_dict,
                                 p_time = py_int ms, p_fields = fields_dict\<rparr>]
        \<and> fst (drain q' []) = items q @ [\<lparr>p_measurement = measurement, p_tags = tags_dict,
                                 p_time = py_int ms, p_fields = fields_dict\<rparr>]))
   \<and> (cb (sp_world st) = (Inr (measurement, fields_dict), w)
      \<and> sample_callbacks os tags_dict [cb] i st = (Tick_done, st') \<longrightarrow>
      (\<exists>ms. float_mul (time_time os w) 1000 = Some ms
        \<and> items (sp_queue st') = items (sp_queue st) @
             [\<lparr>p_measurement = measurement, p_tags = tags_dict, p_time = py_int ms,
               p_fields = fields_dict\<rparr>]))
   \<and> (h (p_tags p) = h' (p_tags p) \<and> h (p_fields p) = h' (p_fields p) \<longrightarrow>
        carried h p = carried h' p)"
proof (intro conjI impI)
  assume "enqueue_measurement tags_dict now q measurement fields_dict = Inr (Some q')"
  from enqueue_measurement_Some [OF this]
  show "\<exists>ms. float_mul now 1000 = Some ms
        \<and> items q' = items q @ [\<lparr>p_measurement = measurement, p_tags = tags_dict,
                                 p_time = py_int ms, p_fields = fields_dict\<rparr>]
        \<and> fst (drain q' []) = items q @ [\<lparr>p_measurement = measurement, p_tags = tags_dict,
                                 p_time = py_int ms, p_fields = fields_dict\<rparr>]"
    by (auto simp: drain_eq)
next
  assume "cb (sp_world st) = (Inr (measurement, fields_dict), w)
      \<and> sample_callbacks os tags_dict [cb] i st = (Tick_done, st')"
  then show "\<exists>ms. float_mul (time_time os w) 1000 = Some ms
        \<and> items (sp_queue st') = items (sp_queue st) @
             [\<lparr>p_measurement = measurement, p_tags = tags_dict, p_time = py_int ms,
               p_fields = fields_dict\<rparr>]"
    by (auto simp: import_data_def split: sum.splits option.splits
             dest!: enqueue_measurement_Some)
next
  assume "h (p_tags p) = h' (p_tags p) \<and> h (p_fields p) = h' (p_fields p)"
  then show "carried h p = carried h' p" by (simp add: carried_def)
qed

theorem enqueue_point_witness:
  "enqueue_measurement (0::addr) (3753904025179783 / 2097152) (Queue 10) ''cpu'' (1::addr)
      = Inr (Some \<lparr>maxsize = 10, items = [\<lparr>p_measurement = ''cpu'', p_tags = 0,
                 p_time = 1790000927534, p_fields = 1\<rparr>]\<rparr>)
   \<and> fst (drain \<lparr>maxsize = 10, items = [\<lparr>p_measurement = ''cpu'', p_tags = 0::addr,
                 p_time = 1790000927534, p_fields = 1::addr\<rparr>]\<rparr> [])
      = [\<lparr>p_measurement = ''cpu'', p_tags = 0, p_time = 1790000927534, p_fields = 1\<rparr>]
   \<and> items (sp_queue (snd (sample_callbacks \<lparr>time_time = (\<lambda>w. w), time_sleep = (\<lambda>d w. w + d)\<rparr>
        (0::addr) [\<lambda>w. (Inr (''cpu'', 1::addr), w + 1/2)] 0
        \<lparr>sp_world = 10, sp_queue = Queue 10, sp_invoked = []\<rparr>)))
      = [\<lparr>p_measurement = ''cpu'', p_tags = 0, p_time = 10500, p_fields = 1\<rparr>]
   \<and> carried [0 \<mapsto> [''tag'' \<mapsto> Py_str ''v''], 1 \<mapsto> [''x'' \<mapsto> Py_int 7]]
         \<lparr>p_measurement = ''cpu'', p_tags = 0, p_time = 10500, p_fields = 1\<rparr>
     = carried [0 \<mapsto> [''tag'' \<mapsto> Py_str ''v''], 1 \<mapsto> [''x'' \<mapsto> Py_int 7], 2 \<mapsto> Map.empty]
         \<lparr>p_measurement = ''cpu'', p_tags = 0, p_time = 10500, p_fields = 1\<rparr>"
proof -
  let ?q = "\<lparr>maxsize = 10, items = [\<lparr>p_measurement = ''cpu'', p_tags = 0::addr,
                 p_time = 1790000927534, p_fields = 1::addr\<rparr>]\<rparr>"
  let ?os = "\<lparr>time_time = (\<lambda>w::real. w), time_sleep = (\<lambda>d w. w + d)\<rparr>"
  let ?cb = "\<lambda>w::real. (Inr (''cpu'', 1::addr) :: py_exception + string \<times> addr, w + 1/2)"
  let ?st = "\<lparr>sp_world = 10::real, sp_queue = Queue 10 :: (addr, addr) point py_queue,
              sp_invoked = []\<rparr>"
  let ?st' = "\<lparr>sp_world = 21/2 :: real,
           sp_queue = \<lparr>maxsize = 10, items = [\<lparr>p_measurement = ''cpu'',
             p_tags = 0::addr, p_time = 10500, p_fields = 1::addr\<rparr>]\<rparr>,
           sp_invoked = [0]\<rparr>"
  let ?h = "[0 \<mapsto> [''tag'' \<mapsto> Py_str ''v''], 1 \<mapsto> [''x'' \<mapsto> Py_int 7]] :: heap"
  let ?h' = "[0 \<mapsto> [''tag'' \<mapsto> Py_str ''v''], 1 \<mapsto> [''x'' \<mapsto> Py_int 7], 2 \<mapsto> Map.empty] :: heap"
  let ?p = "\<lparr>p_measurement = ''cpu'', p_tags = 0::addr, p_time = 10500, p_fields = 1::addr\<rparr>"
  have a: "enqueue_measurement (0::addr) (3753904025179783 / 2097152) (Queue 10) ''cpu'' (1::addr)
      = Inr (Some ?q)"
    by (simp add: enqueue_measurement_def float_mul_example queue_put_def Queue_def py_int_def)
  have b: "sample_callbacks ?os (0::addr) [?cb] 0 ?st = (Tick_done, ?st')"
    by (simp add: import_data_def enqueue_measurement_def float_mul_half queue_put_def Queue_def
        py_int_def)
  have c: "?cb (sp_world ?st) = (Inr (''cpu'', 1), 21/2)"
    by simp
  have d: "?h (p_tags ?p) = ?h' (p_tags ?p) \<and> ?h (p_fields ?p) = ?h' (p_fields ?p)"
    by simp
  from enqueue_point [where tags_dict = "0::addr" and now = "3753904025179783 / 2097152"
      and q = "Queue 10" and measurement = "''cpu''" and fields_dict = "1::addr" and q' = ?q
      and cb = ?cb and st = ?st and w = "21/2" and os = ?os and i = 0 and st' = ?st'
      and h = ?h and h' = ?h' and p = ?p]
    a b c d
  show ?thesis
    by (simp add: float_mul_example float_mul_half Queue_def)
qed

section \<open>Properties of the sampling loop\<close>






section \<open>Properties of the import thread\<close>

lemma drain_invariant_start: "drain_invariant (start_importing_thread q)"
  by (simp add: drain_invariant_def start_importing_thread_def)

lemma import_thread_step_invariant:
  "import_thread_step fmt cw ig s = Some s' \<Longrightarrow> drain_invariant s \<Longrightarrow> drain_invariant s'"
  by (cases "it_pc s")
     (auto simp: import_thread_step_def drain_invariant_def queue_empty_def queue_get_def
           split: if_splits option.splits list.splits prod.splits sum.splits)

lemma step_invariant:
  "step fmt cw ig ev s = Some s' \<Longrightarrow> drain_invariant s \<Longrightarrow> drain_invariant s'"
proof (cases ev)
  case Import_thread_step
  then show "step fmt cw ig ev s = Some s' \<Longrightarrow> drain_invariant s \<Longrightarrow> drain_invariant s'"
    by (simp add: import_thread_step_invariant)
next
  case (Put p)
  then show "step fmt cw ig ev s = Some s' \<Longrightarrow> drain_invariant s \<Longrightarrow> drain_invariant s'"
    by (auto simp: drain_invariant_def queue_put_def split: option.splits if_splits)
next
  case Stop_importing_thread
  then show "step fmt cw ig ev s = Some s' \<Longrightarrow> drain_invariant s \<Longrightarrow> drain_invariant s'"
    by (auto simp: drain_invariant_def)
qed

lemma run_invariant:
  "run fmt cw ig evs s = Some s' \<Longrightarrow> drain_invariant s \<Longrightarrow> drain_invariant s'"
proof (induction evs arbitrary: s)
  case Nil
  then show ?case by simp
next
  case (Cons ev evs)
  then obtain s1 where s1: "step fmt cw ig ev s = Some s1" and r: "run fmt cw ig evs s1 = Some s'"
    by (auto split: option.splits)
  from step_invariant [OF s1 Cons.prems(2)] Cons.IH [OF r] show ?case by simp
qed

text \<open>
  C5. In every state the process reaches from the start of the import thread, whatever
  the other threads put and whenever the thread is stopped: when the thread is about to
  call \<^verbatim>\<open>_import_data_list\<close>, \<^verbatim>\<open>data_list\<close> is not empty; no batch handed over so far is
  empty; and the \<^verbatim>\<open>get\<close> of line 142 never has to wait.
\<close>

theorem no_empty_write:
  assumes "run fmt client_write ignore_errors evs (start_importing_thread import_queue) = Some s"
  shows "(it_pc s = At_import_data_list \<longrightarrow> it_data_list s \<noteq> [])
       \<and> (\<forall>batch \<in> set (it_batches s). batch \<noteq> [])
       \<and> (it_pc s = At_get \<longrightarrow> queue_get (it_queue s) \<noteq> None)"
proof -
  from run_invariant [OF assms drain_invariant_start] have "drain_invariant s" .
  then show ?thesis
    by (auto simp: drain_invariant_def queue_get_def split: list.splits)
qed

theorem no_empty_write_witness:
  "\<exists>s. run (\<lambda>ds. ''[..]'') (\<lambda>ds k. Inr True) True
        [Import_thread_step, Import_thread_step, Import_thread_step,
         Put \<lparr>p_measurement = ''a'', p_tags = [''host'' \<mapsto> ''a''], p_time = 1, p_fields = ()\<rparr>,
         Import_thread_step, Import_thread_step, Import_thread_step, Import_thread_step,
         Import_thread_step, Import_thread_step,
         Put \<lparr>p_measurement = ''b'', p_tags = [''host'' \<mapsto> ''a''], p_time = 2, p_fields = ()\<rparr>,
         Import_thread_step, Import_thread_step, Import_thread_step, Import_thread_step,
         Import_thread_step]
        (start_importing_thread (Queue 2)) = Some s
     \<and> it_pc s = At_import_data_list
     \<and> it_data_list s = [\<lparr>p_measurement = ''b'', p_tags = [''host'' \<mapsto> ''a''], p_time = 2, p_fields = ()\<rparr>]
     \<and> it_batches s = [[\<lparr>p_measurement = ''a'', p_tags = [''host'' \<mapsto> ''a''], p_time = 1, p_fields = ()\<rparr>]]
     \<and> it_data_list s \<noteq> [] \<and> (\<forall>batch \<in> set (it_batches s). batch \<noteq> [])"
proof -
  let ?a = "\<lparr>p_measurement = ''a'', p_tags = [''host'' \<mapsto> ''a''], p_time = 1, p_fields = ()\<rparr>"
  let ?b = "\<lparr>p_measurement = ''b'', p_tags = [''host'' \<mapsto> ''a''], p_time = 2, p_fields = ()\<rparr>"
  let ?s = "\<lparr>it_queue = \<lparr>maxsize = 2, items = []\<rparr>, it_running = True,
      it_pc = At_import_data_list, it_data_list = [?b], it_batches = [[?a]], it_calls = 1,
      it_log = [Info ''Importing started!'', Info ''Importing Data: [..]'']\<rparr>"
  have r: "run (\<lambda>ds. ''[..]'') (\<lambda>ds k. Inr True) True
        [Import_thread_step, Import_thread_step, Import_thread_step,
         Put ?a,
         Import_thread_step, Import_thread_step, Import_thread_step, Import_thread_step,
         Import_thread_step, Import_thread_step,
         Put ?b,
         Import_thread_step, Import_thread_step, Import_thread_step, Import_thread_step,
         Import_thread_step]
        (start_importing_thread (Queue 2)) = Some ?s"
    by (simp add: start_importing_thread_def Queue_def import_thread_step_def
        queue_put_def queue_get_def queue_empty_def import_data_list_def retry_loop_truthy
        IMPORT_RETRY_def)
  from no_empty_write [OF r]
  have "it_data_list ?s \<noteq> [] \<and> (\<forall>batch \<in> set (it_batches ?s). batch \<noteq> [])" by simp
  with r show ?thesis
    by (intro exI [of _ ?s]) simp
qed

lemma import_thread_step_accounted:
  "import_thread_step fmt cw ig s = Some s' \<Longrightarrow> accounted s' = accounted s"
  by (cases "it_pc s")
     (auto simp: import_thread_step_def accounted_def in_flight_def queue_empty_def queue_get_def
           split: if_splits option.splits list.splits prod.splits sum.splits)

lemma step_accounted:
  "step fmt cw ig ev s = Some s' \<Longrightarrow> accounted s' = accounted s @ puts_of [ev]"
proof (cases ev)
  case Import_thread_step
  then show "step fmt cw ig ev s = Some s' \<Longrightarrow> accounted s' = accounted s @ puts_of [ev]"
    by (simp add: import_thread_step_accounted)
next
  case (Put p)
  then show "step fmt cw ig ev s = Some s' \<Longrightarrow> accounted s' = accounted s @ puts_of [ev]"
    by (auto simp: accounted_def in_flight_def queue_put_def split: option.splits if_splits)
next
  case Stop_importing_thread
  then show "step fmt cw ig ev s = Some s' \<Longrightarrow> accounted s' = accounted s @ puts_of [ev]"
    by (auto simp: accounted_def in_flight_def)
qed

lemma puts_of_Cons: "puts_of (ev # evs) = puts_of [ev] @ puts_of evs"
  by (cases ev) simp_all

lemma run_accounted:
  "run fmt cw ig evs s = Some s' \<Longrightarrow> accounted s' = accounted s @ puts_of evs"
proof (induction evs arbitrary: s)
  case Nil
  then show ?case by simp
next
  case (Cons ev evs)
  then obtain s1 where s1: "step fmt cw ig ev s = Some s1" and r: "run fmt cw ig evs s1 = Some s'"
    by (auto split: option.splits)
  from step_accounted [OF s1] Cons.IH [OF r] show ?case
    by (simp add: puts_of_Cons [of ev evs])
qed

lemma step_capacity:
  "step fmt cw ig ev s = Some s' \<Longrightarrow>
     maxsize (it_queue s') = maxsize (it_queue s)
   \<and> (0 < maxsize (it_queue s) \<and> int (length (items (it_queue s))) \<le> maxsize (it_queue s) \<longrightarrow>
        int (length (items (it_queue s'))) \<le> maxsize (it_queue s))"
proof (cases ev)
  case Import_thread_step
  then show "step fmt cw ig ev s = Some s' \<Longrightarrow>
     maxsize (it_queue s') = maxsize (it_queue s)
   \<and> (0 < maxsize (it_queue s) \<and> int (length (items (it_queue s))) \<le> maxsize (it_queue s) \<longrightarrow>
        int (length (items (it_queue s'))) \<le> maxsize (it_queue s))"
    by (cases "it_pc s")
       (auto simp: import_thread_step_def queue_get_def
             split: if_splits option.splits list.splits prod.splits)
next
  case (Put p)
  then show "step fmt cw ig ev s = Some s' \<Longrightarrow>
     maxsize (it_queue s') = maxsize (it_queue s)
   \<and> (0 < maxsize (it_queue s) \<and> int (length (items (it_queue s))) \<le> maxsize (it_queue s) \<longrightarrow>
        int (length (items (it_queue s'))) \<le> maxsize (it_queue s))"
    by (auto simp: queue_put_def split: option.splits if_splits)
next
  case Stop_importing_thread
  then show "step fmt cw ig ev s = Some s' \<Longrightarrow>
     maxsize (it_queue s') = maxsize (it_queue s)
   \<and> (0 < maxsize (it_queue s) \<and> int (length (items (it_queue s))) \<le> maxsize (it_queue s) \<longrightarrow>
        int (length (items (it_queue s'))) \<le> maxsize (it_queue s))"
    by auto
qed

lemma run_capacity:
  "run fmt cw ig evs s = Some s' \<Longrightarrow> 0 < maxsize (it_queue s) \<Longrightarrow>
   int (length (items (it_queue s))) \<le> maxsize (it_queue s) \<Longrightarrow>
     maxsize (it_queue s') = maxsize (it_queue s)
   \<and> int (length (items (it_queue s'))) \<le> maxsize (it_queue s)"
proof (induction evs arbitrary: s)
  case Nil
  then show ?case by simp
next
  case (Cons ev evs)
  then obtain s1 where s1: "step fmt cw ig ev s = Some s1" and r: "run fmt cw ig evs s1 = Some s'"
    by (auto split: option.splits)
  from step_capacity [OF s1] Cons.prems(2,3)
  have "maxsize (it_queue s1) = maxsize (it_queue s)"
    and "0 < maxsize (it_queue s1)"
    and "int (length (items (it_queue s1))) \<le> maxsize (it_queue s1)" by simp_all
  with Cons.IH [OF r] show ?case by simp
qed

text \<open>
  C4, as the claim states it: the drain is atomic, every put falls before it or after it.
  The drain of lines 140 to 142 is a loop of \<^verbatim>\<open>get\<close> calls, and a \<^verbatim>\<open>put\<close> can complete
  between two of them. With a queue of capacity 2 holding two points, a third \<^verbatim>\<open>put\<close>
  cannot complete before the drain takes its first point; it completes after that
  \<^verbatim>\<open>get\<close>, and the same drain returns all three points. No drain done in one step
  returns that batch: the queue never holds three points.
\<close>

theorem drain_atomic_counterexample:
  "\<exists>s5 s.
      run (\<lambda>ds. ''[..]'') (\<lambda>ds k. Inr True) True
        [Put \<lparr>p_measurement = ''a'', p_tags = [''host'' \<mapsto> ''a''], p_time = 1, p_fields = ()\<rparr>, Put \<lparr>p_measurement = ''b'', p_tags = [''host'' \<mapsto> ''a''], p_time = 2, p_fields = ()\<rparr>, Import_thread_step, Import_thread_step, Import_thread_step]
        (start_importing_thread (Queue 2)) = Some s5
    \<and> it_pc s5 = At_get
    \<and> step (\<lambda>ds. ''[..]'') (\<lambda>ds k. Inr True) True (Put \<lparr>p_measurement = ''c'', p_tags = [''host'' \<mapsto> ''a''], p_time = 3, p_fields = ()\<rparr>) s5 = None
    \<and> run (\<lambda>ds. ''[..]'') (\<lambda>ds k. Inr True) True
        [Import_thread_step, Put \<lparr>p_measurement = ''c'', p_tags = [''host'' \<mapsto> ''a''], p_time = 3, p_fields = ()\<rparr>, Import_thread_step, Import_thread_step,
         Import_thread_step, Import_thread_step, Import_thread_step] s5 = Some s
    \<and> it_pc s = At_import_data_list
    \<and> it_data_list s = [\<lparr>p_measurement = ''a'', p_tags = [''host'' \<mapsto> ''a''], p_time = 1, p_fields = ()\<rparr>, \<lparr>p_measurement = ''b'', p_tags = [''host'' \<mapsto> ''a''], p_time = 2, p_fields = ()\<rparr>, \<lparr>p_measurement = ''c'', p_tags = [''host'' \<mapsto> ''a''], p_time = 3, p_fields = ()\<rparr>]
    \<and> maxsize (it_queue s) = 2
    \<and> (\<forall>evs s'. run (\<lambda>ds. ''[..]'') (\<lambda>ds k. Inr True) True evs
                    (start_importing_thread (Queue 2)) = Some s'
          \<longrightarrow> items (it_queue s') \<noteq> [\<lparr>p_measurement = ''a'', p_tags = [''host'' \<mapsto> ''a''], p_time = 1, p_fields = ()\<rparr>, \<lparr>p_measurement = ''b'', p_tags = [''host'' \<mapsto> ''a''], p_time = 2, p_fields = ()\<rparr>, \<lparr>p_measurement = ''c'', p_tags = [''host'' \<mapsto> ''a''], p_time = 3, p_fields = ()\<rparr>])"
proof -
  let ?s5 = "\<lparr>it_queue = \<lparr>maxsize = 2, items = [\<lparr>p_measurement = ''a'', p_tags = [''host'' \<mapsto> ''a''], p_time = 1, p_fields = ()\<rparr>, \<lparr>p_measurement = ''b'', p_tags = [''host'' \<mapsto> ''a''], p_time = 2, p_fields = ()\<rparr>]\<rparr>, it_running = True,
      it_pc = At_get, it_data_list = [], it_batches = [], it_calls = 0,
      it_log = [Info ''Importing started!'']\<rparr>"
  let ?s = "\<lparr>it_queue = \<lparr>maxsize = 2, items = []\<rparr>, it_running = True,
      it_pc = At_import_data_list, it_data_list = [\<lparr>p_measurement = ''a'', p_tags = [''host'' \<mapsto> ''a''], p_time = 1, p_fields = ()\<rparr>, \<lparr>p_measurement = ''b'', p_tags = [''host'' \<mapsto> ''a''], p_time = 2, p_fields = ()\<rparr>, \<lparr>p_measurement = ''c'', p_tags = [''host'' \<mapsto> ''a''], p_time = 3, p_fields = ()\<rparr>], it_batches = [], it_calls = 0,
      it_log = [Info ''Importing started!'']\<rparr>"
  have a: "run (\<lambda>ds. ''[..]'') (\<lambda>ds k. Inr True) True
        [Put \<lparr>p_measurement = ''a'', p_tags = [''host'' \<mapsto> ''a''], p_time = 1, p_fields = ()\<rparr>, Put \<lparr>p_measurement = ''b'', p_tags = [''host'' \<mapsto> ''a''], p_time = 2, p_fields = ()\<rparr>, Import_thread_step, Import_thread_step, Import_thread_step]
        (start_importing_thread (Queue 2)) = Some ?s5"
    by (simp add: start_importing_thread_def Queue_def import_thread_step_def
        queue_put_def queue_get_def queue_empty_def)
  have b: "step (\<lambda>ds. ''[..]'') (\<lambda>ds k. Inr True) True (Put \<lparr>p_measurement = ''c'', p_tags = [''host'' \<mapsto> ''a''], p_time = 3, p_fields = ()\<rparr>) ?s5 = None"
    by (simp add: queue_put_def)
  have c: "run (\<lambda>ds. ''[..]'') (\<lambda>ds k. Inr True) True
        [Import_thread_step, Put \<lparr>p_measurement = ''c'', p_tags = [''host'' \<mapsto> ''a''], p_time = 3, p_fields = ()\<rparr>, Import_thread_step, Import_thread_step,
         Import_thread_step, Import_thread_step, Import_thread_step] ?s5 = Some ?s"
    by (simp add: import_thread_step_def queue_put_def queue_get_def queue_empty_def)
  have d: "items (it_queue s') \<noteq> [\<lparr>p_measurement = ''a'', p_tags = [''host'' \<mapsto> ''a''], p_time = 1, p_fields = ()\<rparr>, \<lparr>p_measurement = ''b'', p_tags = [''host'' \<mapsto> ''a''], p_time = 2, p_fields = ()\<rparr>, \<lparr>p_measurement = ''c'', p_tags = [''host'' \<mapsto> ''a''], p_time = 3, p_fields = ()\<rparr>]"
    if "run (\<lambda>ds. ''[..]'') (\<lambda>ds k. Inr True) True evs
          (start_importing_thread (Queue 2)) = Some s'" for evs s'
  proof -
    from run_capacity [OF that] have "int (length (items (it_queue s'))) \<le> 2"
      by (simp add: start_importing_thread_def Queue_def)
    then show ?thesis by auto
  qed
  from a b c d show ?thesis
    by (intro exI [of _ ?s5] exI [of _ ?s]) simp
qed

text \<open>
  C4, amended. Each \<^verbatim>\<open>put\<close>, \<^verbatim>\<open>get\<close> and \<^verbatim>\<open>empty\<close> is one step (the queue's mutex makes it
  so), and puts of other threads fall between any two steps of the import thread. The
  batches handed over, then the points taken and not yet handed over, then the queue, are
  at every moment the initial queue followed by the points put so far, in order: no point
  is lost, doubled or reordered across drains. The drain is not one step; it ends when the
  inner loop finds the queue empty, and its batch is then everything put up to that moment
  and not in an earlier batch, the points put while it ran included.
\<close>

theorem drain_conserves_points:
  assumes "run fmt client_write ignore_errors evs (start_importing_thread import_queue) = Some s"
  shows "concat (it_batches s) @ in_flight s @ items (it_queue s) = items import_queue @ puts_of evs
       \<and> (it_pc s = At_inner_while \<and> queue_empty (it_queue s) \<longrightarrow>
            (\<exists>s'. import_thread_step fmt client_write ignore_errors s = Some s'
                \<and> it_pc s' = At_import_data_list
                \<and> items (it_queue s') = []
                \<and> concat (it_batches s') @ it_data_list s' = items import_queue @ puts_of evs))"
proof (intro conjI)
  from run_accounted [OF assms]
  show acc: "concat (it_batches s) @ in_flight s @ items (it_queue s) = items import_queue @ puts_of evs"
    by (simp add: accounted_def in_flight_def start_importing_thread_def)
  show "it_pc s = At_inner_while \<and> queue_empty (it_queue s) \<longrightarrow>
            (\<exists>s'. import_thread_step fmt client_write ignore_errors s = Some s'
                \<and> it_pc s' = At_import_data_list
                \<and> items (it_queue s') = []
                \<and> concat (it_batches s') @ it_data_list s' = items import_queue @ puts_of evs)"
    using acc by (auto simp: import_thread_step_def in_flight_def queue_empty_def)
qed

theorem drain_conserves_points_witness:
  "\<exists>s. run (\<lambda>ds. ''[..]'') (\<lambda>ds k. Inr True) True
        [Put \<lparr>p_measurement = ''a'', p_tags = [''host'' \<mapsto> ''a''], p_time = 1, p_fields = ()\<rparr>,
         Import_thread_step, Import_thread_step, Import_thread_step,
         Put \<lparr>p_measurement = ''b'', p_tags = [''host'' \<mapsto> ''a''], p_time = 2, p_fields = ()\<rparr>,
         Import_thread_step, Import_thread_step, Import_thread_step, Import_thread_step,
         Put \<lparr>p_measurement = ''c'', p_tags = [''host'' \<mapsto> ''a''], p_time = 3, p_fields = ()\<rparr>,
         Import_thread_step, Import_thread_step, Import_thread_step, Import_thread_step,
         Import_thread_step]
        (start_importing_thread (Queue 2)) = Some s
     \<and> it_pc s = At_inner_while
     \<and> it_batches s = [[\<lparr>p_measurement = ''a'', p_tags = [''host'' \<mapsto> ''a''], p_time = 1, p_fields = ()\<rparr>,
                        \<lparr>p_measurement = ''b'', p_tags = [''host'' \<mapsto> ''a''], p_time = 2, p_fields = ()\<rparr>]]
     \<and> it_data_list s = [\<lparr>p_measurement = ''c'', p_tags = [''host'' \<mapsto> ''a''], p_time = 3, p_fields = ()\<rparr>]
     \<and> items (it_queue s) = []
     \<and> (\<exists>s'. import_thread_step (\<lambda>ds. ''[..]'') (\<lambda>ds k. Inr True) True s = Some s'
            \<and> it_pc s' = At_import_data_list
            \<and> concat (it_batches s') @ it_data_list s' =
                [\<lparr>p_measurement = ''a'', p_tags = [''host'' \<mapsto> ''a''], p_time = 1, p_fields = ()\<rparr>,
                 \<lparr>p_measurement = ''b'', p_tags = [''host'' \<mapsto> ''a''], p_time = 2, p_fields = ()\<rparr>,
                 \<lparr>p_measurement = ''c'', p_tags = [''host'' \<mapsto> ''a''], p_time = 3, p_fields = ()\<rparr>])"
proof -
  let ?a = "\<lparr>p_measurement = ''a'', p_tags = [''host'' \<mapsto> ''a''], p_time = 1, p_fields = ()\<rparr>"
  let ?b = "\<lparr>p_measurement = ''b'', p_tags = [''host'' \<mapsto> ''a''], p_time = 2, p_fields = ()\<rparr>"
  let ?c = "\<lparr>p_measurement = ''c'', p_tags = [''host'' \<mapsto> ''a''], p_time = 3, p_fields = ()\<rparr>"
  let ?s = "\<lparr>it_queue = \<lparr>maxsize = 2, items = []\<rparr>, it_running = True,
      it_pc = At_inner_while, it_data_list = [?c], it_batches = [[?a, ?b]], it_calls = 1,
      it_log = [Info ''Importing started!'', Info ''Importing Data: [..]'']\<rparr>"
  have r: "run (\<lambda>ds. ''[..]'') (\<lambda>ds k. Inr True) True
        [Put ?a, Import_thread_step, Import_thread_step, Import_thread_step,
         Put ?b, Import_thread_step, Import_thread_step, Import_thread_step, Import_thread_step,
         Put ?c, Import_thread_step, Import_thread_step, Import_thread_step, Import_thread_step,
         Import_thread_step]
        (start_importing_thread (Queue 2)) = Some ?s"
    by (simp add: start_importing_thread_def Queue_def import_thread_step_def
        queue_put_def queue_get_def queue_empty_def import_data_list_def retry_loop_truthy
        IMPORT_RETRY_def)
  have e: "it_pc ?s = At_inner_while \<and> queue_empty (it_queue ?s)"
    by (simp add: queue_empty_def)
  from drain_conserves_points [OF r, THEN conjunct2, rule_format, OF e]
    drain_conserves_points [OF r, THEN conjunct1]
  have "\<exists>s'. import_thread_step (\<lambda>ds. ''[..]'') (\<lambda>ds k. Inr True) True ?s = Some s'
            \<and> it_pc s' = At_import_data_list
            \<and> concat (it_batches s') @ it_data_list s' = [?a, ?b, ?c]"
    by (auto simp: Queue_def)
  with r show ?thesis
    by (intro exI [of _ ?s]) simp
qed

section \<open>Properties of the constructor\<close>

lemma sample_callbacks_completes:
  assumes ok: "\<forall>cb \<in> set cbs. \<forall>w. \<exists>m f w'. cb w = (Inr (m, f), w')"
    and finite: "\<forall>w. float_mul (time_time os w) 1000 \<noteq> None"
  shows "maxsize (sp_queue st) \<le> 0 \<Longrightarrow>
    \<exists>st'. sample_callbacks os tags_dict cbs i st = (Tick_done, st')
        \<and> maxsize (sp_queue st') = maxsize (sp_queue st)"
  using ok
proof (induction cbs arbitrary: i st)
  case Nil
  then show ?case by simp
next
  case (Cons cb cbs)
  from Cons.prems(2) obtain m f w where cb: "cb (sp_world st) = (Inr (m, f), w)"
    by (meson list.set_intros(1))
  from finite obtain ms where ms: "float_mul (time_time os w) 1000 = Some ms" by auto
  let ?p = "\<lparr>p_measurement = m, p_tags = tags_dict, p_time = py_int ms, p_fields = f\<rparr>"
  let ?q = "(sp_queue st)\<lparr>items := items (sp_queue st) @ [?p]\<rparr>"
  have put: "import_data tags_dict (time_time os w) (sp_queue st) m f = Inr (Some ?q)"
    using Cons.prems(1) by (simp add: import_data_def enqueue_measurement_def queue_put_def ms)
  let ?st = "st\<lparr>sp_world := w, sp_queue := ?q, sp_invoked := sp_invoked st @ [i]\<rparr>"
  have "maxsize (sp_queue ?st) \<le> 0" using Cons.prems(1) by simp
  moreover have "\<forall>cb \<in> set cbs. \<forall>w. \<exists>m f w'. cb w = (Inr (m, f), w')"
    using Cons.prems(2) by simp
  ultimately obtain st' where
    "sample_callbacks os tags_dict cbs (Suc i) ?st = (Tick_done, st')"
    "maxsize (sp_queue st') = maxsize (sp_queue ?st)"
    using Cons.IH [of ?st "Suc i"] by blast
  then show ?case by (simp add: cb put)
qed

lemma sampling_loop_never_returns:
  assumes ok: "\<forall>cb \<in> set callbacks. \<forall>w. \<exists>m f w'. cb w = (Inr (m, f), w')"
    and finite: "\<forall>w. float_mul (time_time os w) 1000 \<noteq> None"
    and interval: "0 \<le> choose_interval interval"
  shows "maxsize (sp_queue st) \<le> 0 \<Longrightarrow>
    start_sampling_thread os tags_dict callbacks interval st = None"
proof -
  have "sampling_loop os' tags' cbs' iv st = Some r \<Longrightarrow>
        os' = os \<and> tags' = tags_dict \<and> cbs' = callbacks \<and> maxsize (sp_queue st) \<le> 0 \<longrightarrow> False"
    for os' tags' cbs' iv st r
  proof (induct rule: sampling_loop.raw_induct [rotated, consumes 1])
    case (1 loop os' tags' cbs' iv st r)
    show ?case
    proof
      assume h: "os' = os \<and> tags' = tags_dict \<and> cbs' = callbacks \<and> maxsize (sp_queue st) \<le> 0"
      then obtain st' where t: "sample_callbacks os' tags' cbs' 0 st = (Tick_done, st')"
        and m: "maxsize (sp_queue st') = maxsize (sp_queue st)"
        using sample_callbacks_completes [OF ok finite, of st tags_dict 0] by auto
      from 1(2) have "loop os' tags' cbs' iv
          (st'\<lparr>sp_world := time_sleep os' iv (sp_world st')\<rparr>) = Some r"
        by (simp add: t)
      from 1(1) [OF this] h m show False by simp
    qed
  qed
  then show "maxsize (sp_queue st) \<le> 0 \<Longrightarrow>
    start_sampling_thread os tags_dict callbacks interval st = None"
    unfolding start_sampling_thread_def
    by (cases "sampling_loop os tags_dict callbacks (choose_interval interval) st") auto
qed

text \<open>
  C7. The constructor, run with a callback registered (the arguments of
  \<^verbatim>\<open>SampleDataImporter\<close>) against a server without the database: it lists the databases,
  creates the database, switches to it and starts the import thread. It starts nothing
  else and invokes no callback; sampling starts only with a call of
  \<^verbatim>\<open>start_sampling_thread\<close>, which runs the loop in the calling thread.
\<close>

theorem constructor_starts_import_thread_only:
  "init \<lparr>client_get_list_database = (\<lambda>(dbs, cur). Inr dbs),
         client_create_database = (\<lambda>name (dbs, cur). Inr (dbs @ [name], cur)),
         client_switch_database = (\<lambda>name (dbs, cur). Inr (dbs, Some name))\<rparr>
        ([], None) ''Sample_Database'' [''Sample_Tag'' \<mapsto> ''Sample_Tag_Value'']
        [\<lambda>w. (Inr (''sample_measurement'', [''low_val'' \<mapsto> (10::int)]), w :: unit)] True
        IMPORT_QUEUE_SIZE
   = ([Get_list_database, Log (Info ''Creating database Sample_Database''),
       Create_database ''Sample_Database'', Switch_database ''Sample_Database'',
       Thread_start_import_thread, Log (Info ''Importing started!'')],
      Inr (\<lparr>self_database_name = ''Sample_Database'',
            self_tags_dict = [''Sample_Tag'' \<mapsto> ''Sample_Tag_Value''],
            self_data_importer_callback_list =
              [\<lambda>w. (Inr (''sample_measurement'', [''low_val'' \<mapsto> (10::int)]), w)],
            self_ignore_errors = True,
            self_sample_interval = 1,
            self_import_queue = \<lparr>maxsize = 10000, items = []\<rparr>,
            self_is_import_thread_running = True\<rparr>,
           ([''Sample_Database''], Some ''Sample_Database'')))"
  by (simp add: init_def create_database_def Queue_def IMPORT_QUEUE_SIZE_def SAMPLE_INTERVAL_def)

end
